theory Spec2Isabelle
  imports Complex_Main
begin

section \<open>JavaScript values as the handlers see them\<close>

text \<open>
  A request body parsed by \<^verbatim>\<open>express.json()\<close> and the payload of a client event are
  JSON-like JavaScript values. \<open>Undefined\<close> is what reading a property that an object does
  not have yields; a parsed JSON text never contains it. \<open>Num\<close> carries the numeric value;
  the program only passes numbers on and tests them for being zero.
\<close>

datatype jsval =
    Undefined
  | Null
  | Bool bool
  | Num rat
  | Str string
  | Arr "jsval list"
  | Obj "(string \<times> jsval) list"

datatype js_error = TypeError

text \<open>JavaScript's ToBoolean, which \<^verbatim>\<open>!x\<close> and \<^verbatim>\<open>x || y\<close> apply to their left operand.\<close>

fun truthy :: "jsval \<Rightarrow> bool" where
  "truthy Undefined = False"
| "truthy Null = False"
| "truthy (Bool b) = b"
| "truthy (Num n) = (n \<noteq> 0)"
| "truthy (Str s) = (s \<noteq> [])"
| "truthy (Arr xs) = True"
| "truthy (Obj kvs) = True"

definition nullish :: "jsval \<Rightarrow> bool" where
  "nullish v = (v = Undefined \<or> v = Null)"

text \<open>
  The value of property \<open>k\<close> of a value that is neither \<^verbatim>\<open>undefined\<close> nor \<^verbatim>\<open>null\<close>.
  The program reads only the names \<^verbatim>\<open>order\<close>, \<^verbatim>\<open>order_id\<close>, \<^verbatim>\<open>old_status\<close>,
  \<^verbatim>\<open>new_status\<close>, \<^verbatim>\<open>image\<close>, \<^verbatim>\<open>image_id\<close>, \<^verbatim>\<open>assigned_users\<close>, \<^verbatim>\<open>comment\<close>,
  \<^verbatim>\<open>comment_id\<close>, \<^verbatim>\<open>order_number\<close>, \<^verbatim>\<open>id\<close> and \<^verbatim>\<open>timestamp\<close>; none of them is an
  index, \<^verbatim>\<open>length\<close> or a name inherited from a prototype, so only an object's own
  entries can answer. The first entry of a key is the object's entry for it.
\<close>

fun field :: "jsval \<Rightarrow> string \<Rightarrow> jsval" where
  "field (Obj kvs) k = (case map_of kvs k of Some v \<Rightarrow> v | None \<Rightarrow> Undefined)"
| "field v k = Undefined"

text \<open>
  Property access \<^verbatim>\<open>v.k\<close> and destructuring \<^verbatim>\<open>const { k } = v\<close>: both throw a
  TypeError when \<open>v\<close> is \<^verbatim>\<open>undefined\<close> or \<^verbatim>\<open>null\<close>.
\<close>

definition get_prop :: "jsval \<Rightarrow> string \<Rightarrow> js_error + jsval" where
  "get_prop v k = (if nullish v then Inl TypeError else Inr (field v k))"

text \<open>\<^verbatim>\<open>a || b\<close>, with \<open>b\<close> already evaluated (here it is always \<^verbatim>\<open>Date.now()\<close>).\<close>

definition js_or :: "jsval \<Rightarrow> jsval \<Rightarrow> jsval" where
  "js_or a b = (if truthy a then a else b)"

text \<open>
  JavaScript's ToString, which a template literal applies to each \<^verbatim>\<open>${...}\<close> value.
  Primitives always convert. An object converts through its \<^verbatim>\<open>toString\<close> and then its
  \<^verbatim>\<open>valueOf\<close>: an object without an entry \<^verbatim>\<open>toString\<close> of its own inherits the one that
  answers \<^verbatim>\<open>[object Object]\<close>; an object with such an entry has a value there that is
  not a function (no parsed value is), the inherited \<^verbatim>\<open>valueOf\<close> answers the object
  itself and an entry \<^verbatim>\<open>valueOf\<close> of its own is no function either, so the conversion
  throws a TypeError. An array joins the conversions of its elements, \<^verbatim>\<open>undefined\<close> and
  \<^verbatim>\<open>null\<close> counting as the empty string, and throws when one of them does. Only whether
  the conversion throws is modelled, not the text it gives; the limits of the engine,
  such as the depth of its stack, are not modelled.
\<close>

fun tostring_throws :: "jsval \<Rightarrow> bool" where
  "tostring_throws (Obj kvs) = (map_of kvs ''toString'' \<noteq> None)"
| "tostring_throws (Arr xs) = (\<exists>x \<in> set xs. tostring_throws x)"
| "tostring_throws v = False"

section \<open>What a handler does to the outside\<close>

text \<open>
  The handlers of \<^verbatim>\<open>server.js\<close> act through the socket and server objects of the
  socket.io library and through the console. Each such call is recorded, in program
  order; the text of a console line is not recorded.
  \<^item> \<open>SocketJoin sid room\<close> is \<^verbatim>\<open>socket.join(room)\<close> on the socket with id \<open>sid\<close>;
  \<^item> \<open>SocketEmit sid ev data\<close> is \<^verbatim>\<open>socket.emit(ev, data)\<close> on that socket;
  \<^item> \<open>RoomEmit room ev data\<close> is \<^verbatim>\<open>io.to(room).emit(ev, data)\<close>.
\<close>

datatype call =
    ConsoleLog
  | SocketJoin string string
  | SocketEmit string string jsval
  | RoomEmit string string jsval

text \<open>
  \<^verbatim>\<open>console.log\<close> of a template literal whose \<^verbatim>\<open>${...}\<close> values are \<open>vs\<close>: the literal is
  evaluated first, and a value whose conversion throws leaves the console line
  unwritten and the statement failed with a TypeError.
\<close>

definition console_log :: "jsval list \<Rightarrow> js_error + call" where
  "console_log vs = (if list_ex tostring_throws vs then Inl TypeError else Inr ConsoleLog)"

record http_response =
  status :: nat
  json :: jsval

text \<open>\<^verbatim>\<open>res.json(b)\<close> answers with status 200; \<^verbatim>\<open>res.status(c).json(b)\<close> with \<open>c\<close>.\<close>

definition res_json :: "jsval \<Rightarrow> http_response" where
  "res_json b = \<lparr>status = 200, json = b\<rparr>"

definition res_status_json :: "nat \<Rightarrow> jsval \<Rightarrow> http_response" where
  "res_status_json c b = \<lparr>status = c, json = b\<rparr>"

section \<open>The socket handlers (server.js, lines 47 to 82)\<close>

text \<open>
  \<^verbatim>\<open>let connectedClients = 0\<close> is the only variable of the program that changes. A
  handler that writes it takes its value and returns the new one.

  The connection handler: \<^verbatim>\<open>connectedClients++\<close>, a console line,
  \<^verbatim>\<open>socket.join('order_updates')\<close>, a console line, and
  \<^verbatim>\<open>socket.emit('connection_established', {message, clientId: socket.id})\<close>. Its three
  \<^verbatim>\<open>socket.on\<close> registrations are the handlers below.
\<close>

definition on_connection :: "string \<Rightarrow> int \<Rightarrow> int \<times> call list" where
  "on_connection socket_id connectedClients =
     (connectedClients + 1,
      [ConsoleLog,
       SocketJoin socket_id ''order_updates'',
       ConsoleLog,
       SocketEmit socket_id ''connection_established''
         (Obj [(''message'', Str ''Connected to order updates''),
               (''clientId'', Str socket_id)])])"

text \<open>
  The ping handler: \<^verbatim>\<open>socket.emit('pong', {timestamp: data.timestamp || Date.now()})\<close>,
  then a console line. The argument is evaluated before the call, so a failing
  \<^verbatim>\<open>data.timestamp\<close> leaves nothing done. \<open>now\<close> is the value of \<^verbatim>\<open>Date.now()\<close>.
\<close>

definition on_ping :: "string \<Rightarrow> jsval \<Rightarrow> rat \<Rightarrow> js_error + call list" where
  "on_ping socket_id data now =
     (case get_prop data ''timestamp'' of
        Inl e \<Rightarrow> Inl e
      | Inr timestamp \<Rightarrow>
          Inr [SocketEmit socket_id ''pong''
                 (Obj [(''timestamp'', js_or timestamp (Num now))]),
               ConsoleLog])"

text \<open>The disconnect handler: \<^verbatim>\<open>connectedClients--\<close> and a console line.\<close>

definition on_disconnect :: "string \<Rightarrow> string \<Rightarrow> int \<Rightarrow> int \<times> call list" where
  "on_disconnect socket_id reason connectedClients = (connectedClients - 1, [ConsoleLog])"

section \<open>The HTTP handlers (server.js, lines 84 to 367)\<close>

text \<open>
  Each \<^verbatim>\<open>app.post\<close> handler takes \<^verbatim>\<open>req.body\<close> and the current value of
  \<^verbatim>\<open>connectedClients\<close>, which it reads and never writes. It returns the response and
  the calls made before it, or the TypeError that ends it. The steps are the source's:
  \<^item> destructure the body, which throws when the body is \<^verbatim>\<open>undefined\<close> or \<^verbatim>\<open>null\<close>;
  \<^item> answer 400 when one of the destructured values is falsy;
  \<^item> write the console line, a template literal: it reads \<^verbatim>\<open>order.order_number\<close> or
    \<^verbatim>\<open>comment.id\<close> where the source does and converts each of its values to a string,
    which throws for a value that does not convert; the handler ends there, before the
    emit and before the answer;
  \<^item> emit the event to the room \<^verbatim>\<open>order_updates\<close>;
  \<^item> answer 200.

  Every failure is a TypeError, so the order of the reads and conversions within one
  console line does not show in the result.
\<close>

text \<open>
  \<^verbatim>\<open>POST /broadcast/order-created\<close>, with the console line
  \<^verbatim>\<open>Broadcasting order_created: #${order.order_number}\<close>.
\<close>

definition post_order_created :: "jsval \<Rightarrow> int \<Rightarrow> js_error + (http_response \<times> call list)" where
  "post_order_created body connectedClients =
     (if nullish body then Inl TypeError
      else let order = field body ''order'' in
      if \<not> truthy order
      then Inr (res_status_json 400 (Obj [(''error'', Str ''Order data is required'')]), [])
      else case get_prop order ''order_number'' of
             Inl e \<Rightarrow> Inl e
           | Inr order_number \<Rightarrow>
               (case console_log [order_number] of
                  Inl e \<Rightarrow> Inl e
                | Inr line \<Rightarrow>
                    Inr (res_json (Obj [(''success'', Bool True),
                                       (''message'', Str ''Order created event broadcasted''),
                                       (''clients'', Num (of_int connectedClients))]),
                         [line,
                          RoomEmit ''order_updates'' ''order_created''
                            (Obj [(''type'', Str ''order_created''),
                                  (''order'', order)])])))"

text \<open>
  \<^verbatim>\<open>POST /broadcast/order-updated\<close>, with the console line
  \<^verbatim>\<open>Broadcasting order_updated: #${order.order_number}\<close>.
\<close>

definition post_order_updated :: "jsval \<Rightarrow> int \<Rightarrow> js_error + (http_response \<times> call list)" where
  "post_order_updated body connectedClients =
     (if nullish body then Inl TypeError
      else let order = field body ''order'' in
      if \<not> truthy order
      then Inr (res_status_json 400 (Obj [(''error'', Str ''Order data is required'')]), [])
      else case get_prop order ''order_number'' of
             Inl e \<Rightarrow> Inl e
           | Inr order_number \<Rightarrow>
               (case console_log [order_number] of
                  Inl e \<Rightarrow> Inl e
                | Inr line \<Rightarrow>
                    Inr (res_json (Obj [(''success'', Bool True),
                                       (''message'', Str ''Order updated event broadcasted''),
                                       (''clients'', Num (of_int connectedClients))]),
                         [line,
                          RoomEmit ''order_updates'' ''order_updated''
                            (Obj [(''type'', Str ''order_updated''),
                                  (''order'', order)])])))"

text \<open>
  \<^verbatim>\<open>POST /broadcast/order-deleted\<close>, with the console line
  \<^verbatim>\<open>Broadcasting order_deleted: ID ${order_id}\<close>.
\<close>

definition post_order_deleted :: "jsval \<Rightarrow> int \<Rightarrow> js_error + (http_response \<times> call list)" where
  "post_order_deleted body connectedClients =
     (if nullish body then Inl TypeError
      else let order_id = field body ''order_id'' in
      if \<not> truthy order_id
      then Inr (res_status_json 400 (Obj [(''error'', Str ''Order ID is required'')]), [])
      else case console_log [order_id] of
             Inl e \<Rightarrow> Inl e
           | Inr line \<Rightarrow>
               Inr (res_json (Obj [(''success'', Bool True),
                                  (''message'', Str ''Order deleted event broadcasted''),
                                  (''clients'', Num (of_int connectedClients))]),
                    [line,
                     RoomEmit ''order_updates'' ''order_deleted''
                       (Obj [(''type'', Str ''order_deleted''),
                             (''order_id'', order_id)])]))"

text \<open>
  \<^verbatim>\<open>POST /broadcast/order-status-changed\<close>, with the console line
  \<^verbatim>\<open>Broadcasting order_status_changed: #${order.order_number} (${old_status} -> ${new_status})\<close>.
\<close>

definition post_order_status_changed :: "jsval \<Rightarrow> int \<Rightarrow> js_error + (http_response \<times> call list)" where
  "post_order_status_changed body connectedClients =
     (if nullish body then Inl TypeError
      else let order_id = field body ''order_id'';
               old_status = field body ''old_status'';
               new_status = field body ''new_status'';
               order = field body ''order'' in
      if \<not> truthy order_id \<or> \<not> truthy old_status \<or> \<not> truthy new_status \<or> \<not> truthy order
      then Inr (res_status_json 400 (Obj [(''error'', Str ''Missing required fields'')]), [])
      else case get_prop order ''order_number'' of
             Inl e \<Rightarrow> Inl e
           | Inr order_number \<Rightarrow>
               (case console_log [order_number, old_status, new_status] of
                  Inl e \<Rightarrow> Inl e
                | Inr line \<Rightarrow>
                    Inr (res_json (Obj [(''success'', Bool True),
                                       (''message'', Str ''Order status changed event broadcasted''),
                                       (''clients'', Num (of_int connectedClients))]),
                         [line,
                          RoomEmit ''order_updates'' ''order_status_changed''
                            (Obj [(''type'', Str ''order_status_changed''),
                                  (''order_id'', order_id),
                                  (''old_status'', old_status),
                                  (''new_status'', new_status),
                                  (''order'', order)])])))"

text \<open>
  \<^verbatim>\<open>POST /broadcast/order-image-uploaded\<close>, with the console line
  \<^verbatim>\<open>Broadcasting order_image_uploaded: Order #${order.order_number}\<close>.
\<close>

definition post_order_image_uploaded :: "jsval \<Rightarrow> int \<Rightarrow> js_error + (http_response \<times> call list)" where
  "post_order_image_uploaded body connectedClients =
     (if nullish body then Inl TypeError
      else let order_id = field body ''order_id'';
               image = field body ''image'';
               order = field body ''order'' in
      if \<not> truthy order_id \<or> \<not> truthy image \<or> \<not> truthy order
      then Inr (res_status_json 400 (Obj [(''error'', Str ''Missing required fields'')]), [])
      else case get_prop order ''order_number'' of
             Inl e \<Rightarrow> Inl e
           | Inr order_number \<Rightarrow>
               (case console_log [order_number] of
                  Inl e \<Rightarrow> Inl e
                | Inr line \<Rightarrow>
                    Inr (res_json (Obj [(''success'', Bool True),
                                       (''message'', Str ''Order image uploaded event broadcasted''),
                                       (''clients'', Num (of_int connectedClients))]),
                         [line,
                          RoomEmit ''order_updates'' ''order_image_uploaded''
                            (Obj [(''type'', Str ''order_image_uploaded''),
                                  (''order_id'', order_id),
                                  (''image'', image),
                                  (''order'', order)])])))"

text \<open>
  \<^verbatim>\<open>POST /broadcast/order-image-deleted\<close>, with the console line
  \<^verbatim>\<open>Broadcasting order_image_deleted: Order #${order.order_number}\<close>.
\<close>

definition post_order_image_deleted :: "jsval \<Rightarrow> int \<Rightarrow> js_error + (http_response \<times> call list)" where
  "post_order_image_deleted body connectedClients =
     (if nullish body then Inl TypeError
      else let order_id = field body ''order_id'';
               image_id = field body ''image_id'';
               order = field body ''order'' in
      if \<not> truthy order_id \<or> \<not> truthy image_id \<or> \<not> truthy order
      then Inr (res_status_json 400 (Obj [(''error'', Str ''Missing required fields'')]), [])
      else case get_prop order ''order_number'' of
             Inl e \<Rightarrow> Inl e
           | Inr order_number \<Rightarrow>
               (case console_log [order_number] of
                  Inl e \<Rightarrow> Inl e
                | Inr line \<Rightarrow>
                    Inr (res_json (Obj [(''success'', Bool True),
                                       (''message'', Str ''Order image deleted event broadcasted''),
                                       (''clients'', Num (of_int connectedClients))]),
                         [line,
                          RoomEmit ''order_updates'' ''order_image_deleted''
                            (Obj [(''type'', Str ''order_image_deleted''),
                                  (''order_id'', order_id),
                                  (''image_id'', image_id),
                                  (''order'', order)])])))"

text \<open>
  \<^verbatim>\<open>POST /broadcast/order-assigned\<close>, with the console line
  \<^verbatim>\<open>Broadcasting order_assigned: Order #${order.order_number}\<close>.
\<close>

definition post_order_assigned :: "jsval \<Rightarrow> int \<Rightarrow> js_error + (http_response \<times> call list)" where
  "post_order_assigned body connectedClients =
     (if nullish body then Inl TypeError
      else let order_id = field body ''order_id'';
               assigned_users = field body ''assigned_users'';
               order = field body ''order'' in
      if \<not> truthy order_id \<or> \<not> truthy assigned_users \<or> \<not> truthy order
      then Inr (res_status_json 400 (Obj [(''error'', Str ''Missing required fields'')]), [])
      else case get_prop order ''order_number'' of
             Inl e \<Rightarrow> Inl e
           | Inr order_number \<Rightarrow>
               (case console_log [order_number] of
                  Inl e \<Rightarrow> Inl e
                | Inr line \<Rightarrow>
                    Inr (res_json (Obj [(''success'', Bool True),
                                       (''message'', Str ''Order assigned event broadcasted''),
                                       (''clients'', Num (of_int connectedClients))]),
                         [line,
                          RoomEmit ''order_updates'' ''order_assigned''
                            (Obj [(''type'', Str ''order_assigned''),
                                  (''order_id'', order_id),
                                  (''assigned_users'', assigned_users),
                                  (''order'', order)])])))"

text \<open>
  \<^verbatim>\<open>POST /broadcast/comment-created\<close>, with the console line
  \<^verbatim>\<open>Broadcasting comment_created: Order #${order_id}, Comment #${comment.id}\<close>.
\<close>

definition post_comment_created :: "jsval \<Rightarrow> int \<Rightarrow> js_error + (http_response \<times> call list)" where
  "post_comment_created body connectedClients =
     (if nullish body then Inl TypeError
      else let order_id = field body ''order_id'';
               comment = field body ''comment'' in
      if \<not> truthy order_id \<or> \<not> truthy comment
      then Inr (res_status_json 400 (Obj [(''error'', Str ''Missing required fields'')]), [])
      else case get_prop comment ''id'' of
             Inl e \<Rightarrow> Inl e
           | Inr comment_number \<Rightarrow>
               (case console_log [order_id, comment_number] of
                  Inl e \<Rightarrow> Inl e
                | Inr line \<Rightarrow>
                    Inr (res_json (Obj [(''success'', Bool True),
                                       (''message'', Str ''Comment created event broadcasted''),
                                       (''clients'', Num (of_int connectedClients))]),
                         [line,
                          RoomEmit ''order_updates'' ''comment_created''
                            (Obj [(''type'', Str ''comment_created''),
                                  (''order_id'', order_id),
                                  (''comment'', comment)])])))"

text \<open>
  \<^verbatim>\<open>POST /broadcast/comment-updated\<close>, with the console line
  \<^verbatim>\<open>Broadcasting comment_updated: Order #${order_id}, Comment #${comment.id}\<close>.
\<close>

definition post_comment_updated :: "jsval \<Rightarrow> int \<Rightarrow> js_error + (http_response \<times> call list)" where
  "post_comment_updated body connectedClients =
     (if nullish body then Inl TypeError
      else let order_id = field body ''order_id'';
               comment = field body ''comment'' in
      if \<not> truthy order_id \<or> \<not> truthy comment
      then Inr (res_status_json 400 (Obj [(''error'', Str ''Missing required fields'')]), [])
      else case get_prop comment ''id'' of
             Inl e \<Rightarrow> Inl e
           | Inr comment_number \<Rightarrow>
               (case console_log [order_id, comment_number] of
                  Inl e \<Rightarrow> Inl e
                | Inr line \<Rightarrow>
                    Inr (res_json (Obj [(''success'', Bool True),
                                       (''message'', Str ''Comment updated event broadcasted''),
                                       (''clients'', Num (of_int connectedClients))]),
                         [line,
                          RoomEmit ''order_updates'' ''comment_updated''
                            (Obj [(''type'', Str ''comment_updated''),
                                  (''order_id'', order_id),
                                  (''comment'', comment)])])))"

text \<open>
  \<^verbatim>\<open>POST /broadcast/comment-deleted\<close>, with the console line
  \<^verbatim>\<open>Broadcasting comment_deleted: Order #${order_id}, Comment #${comment_id}\<close>.
\<close>

definition post_comment_deleted :: "jsval \<Rightarrow> int \<Rightarrow> js_error + (http_response \<times> call list)" where
  "post_comment_deleted body connectedClients =
     (if nullish body then Inl TypeError
      else let order_id = field body ''order_id'';
               comment_id = field body ''comment_id'' in
      if \<not> truthy order_id \<or> \<not> truthy comment_id
      then Inr (res_status_json 400 (Obj [(''error'', Str ''Missing required fields'')]), [])
      else case console_log [order_id, comment_id] of
             Inl e \<Rightarrow> Inl e
           | Inr line \<Rightarrow>
               Inr (res_json (Obj [(''success'', Bool True),
                                  (''message'', Str ''Comment deleted event broadcasted''),
                                  (''clients'', Num (of_int connectedClients))]),
                    [line,
                     RoomEmit ''order_updates'' ''comment_deleted''
                       (Obj [(''type'', Str ''comment_deleted''),
                             (''order_id'', order_id),
                             (''comment_id'', comment_id)])]))"

text \<open>
  \<^verbatim>\<open>GET /health\<close> and \<^verbatim>\<open>GET /\<close>. \<open>uptime\<close> is the value of \<^verbatim>\<open>process.uptime()\<close>.
\<close>

definition get_health :: "int \<Rightarrow> rat \<Rightarrow> http_response" where
  "get_health connectedClients uptime =
     res_json (Obj [(''status'', Str ''ok''),
                    (''connectedClients'', Num (of_int connectedClients)),
                    (''uptime'', Num uptime)])"

definition get_root :: "int \<Rightarrow> http_response" where
  "get_root connectedClients =
     res_json (Obj [(''message'', Str ''Socket.IO Server for Seefood Orders''),
                    (''version'', Str ''1.0.0''),
                    (''connectedClients'', Num (of_int connectedClients))])"

section \<open>Routing and the table of event kinds\<close>

datatype endpoint =
    OrderCreated
  | OrderUpdated
  | OrderDeleted
  | OrderStatusChanged
  | OrderImageUploaded
  | OrderImageDeleted
  | OrderAssigned
  | CommentCreated
  | CommentUpdated
  | CommentDeleted

text \<open>The handler that \<^verbatim>\<open>app.post\<close> registers for each path.\<close>

fun handler :: "endpoint \<Rightarrow> jsval \<Rightarrow> int \<Rightarrow> js_error + (http_response \<times> call list)" where
  "handler OrderCreated = post_order_created"
| "handler OrderUpdated = post_order_updated"
| "handler OrderDeleted = post_order_deleted"
| "handler OrderStatusChanged = post_order_status_changed"
| "handler OrderImageUploaded = post_order_image_uploaded"
| "handler OrderImageDeleted = post_order_image_deleted"
| "handler OrderAssigned = post_order_assigned"
| "handler CommentCreated = post_comment_created"
| "handler CommentUpdated = post_comment_updated"
| "handler CommentDeleted = post_comment_deleted"

text \<open>
  The table of the HTTP ingestion surface as the specification gives it: for each
  endpoint its required fields (which are also the fields of the emitted event, in this
  order) and the event kind. The handlers above are compared with this table.
\<close>

fun required_fields :: "endpoint \<Rightarrow> string list" where
  "required_fields OrderCreated = [''order'']"
| "required_fields OrderUpdated = [''order'']"
| "required_fields OrderDeleted = [''order_id'']"
| "required_fields OrderStatusChanged = [''order_id'', ''old_status'', ''new_status'', ''order'']"
| "required_fields OrderImageUploaded = [''order_id'', ''image'', ''order'']"
| "required_fields OrderImageDeleted = [''order_id'', ''image_id'', ''order'']"
| "required_fields OrderAssigned = [''order_id'', ''assigned_users'', ''order'']"
| "required_fields CommentCreated = [''order_id'', ''comment'']"
| "required_fields CommentUpdated = [''order_id'', ''comment'']"
| "required_fields CommentDeleted = [''order_id'', ''comment_id'']"

fun event_kind :: "endpoint \<Rightarrow> string" where
  "event_kind OrderCreated = ''order_created''"
| "event_kind OrderUpdated = ''order_updated''"
| "event_kind OrderDeleted = ''order_deleted''"
| "event_kind OrderStatusChanged = ''order_status_changed''"
| "event_kind OrderImageUploaded = ''order_image_uploaded''"
| "event_kind OrderImageDeleted = ''order_image_deleted''"
| "event_kind OrderAssigned = ''order_assigned''"
| "event_kind CommentCreated = ''comment_created''"
| "event_kind CommentUpdated = ''comment_updated''"
| "event_kind CommentDeleted = ''comment_deleted''"

text \<open>The \<^verbatim>\<open><event>\<close> of the success message \<^verbatim>\<open><event> event broadcasted\<close>.\<close>

fun event_label :: "endpoint \<Rightarrow> string" where
  "event_label OrderCreated = ''Order created''"
| "event_label OrderUpdated = ''Order updated''"
| "event_label OrderDeleted = ''Order deleted''"
| "event_label OrderStatusChanged = ''Order status changed''"
| "event_label OrderImageUploaded = ''Order image uploaded''"
| "event_label OrderImageDeleted = ''Order image deleted''"
| "event_label OrderAssigned = ''Order assigned''"
| "event_label CommentCreated = ''Comment created''"
| "event_label CommentUpdated = ''Comment updated''"
| "event_label CommentDeleted = ''Comment deleted''"

text \<open>The text of the \<^verbatim>\<open>error\<close> field of each endpoint's 400 answer.\<close>

fun error_text :: "endpoint \<Rightarrow> string" where
  "error_text OrderCreated = ''Order data is required''"
| "error_text OrderUpdated = ''Order data is required''"
| "error_text OrderDeleted = ''Order ID is required''"
| "error_text ep = ''Missing required fields''"

text \<open>
  The values that the console line of each handler converts to a string, read off the
  template literals of the source.
\<close>

fun logged_values :: "endpoint \<Rightarrow> jsval \<Rightarrow> jsval list" where
  "logged_values OrderCreated body = [field (field body ''order'') ''order_number'']"
| "logged_values OrderUpdated body = [field (field body ''order'') ''order_number'']"
| "logged_values OrderDeleted body = [field body ''order_id'']"
| "logged_values OrderStatusChanged body =
     [field (field body ''order'') ''order_number'', field body ''old_status'',
      field body ''new_status'']"
| "logged_values OrderImageUploaded body = [field (field body ''order'') ''order_number'']"
| "logged_values OrderImageDeleted body = [field (field body ''order'') ''order_number'']"
| "logged_values OrderAssigned body = [field (field body ''order'') ''order_number'']"
| "logged_values CommentCreated body =
     [field body ''order_id'', field (field body ''comment'') ''id'']"
| "logged_values CommentUpdated body =
     [field body ''order_id'', field (field body ''comment'') ''id'']"
| "logged_values CommentDeleted body = [field body ''order_id'', field body ''comment_id'']"

text \<open>A field is present in a body when the body is an object with an entry for it.\<close>

fun present :: "jsval \<Rightarrow> string \<Rightarrow> bool" where
  "present (Obj kvs) k = (map_of kvs k \<noteq> None)"
| "present v k = False"

text \<open>The event the table prescribes: \<^verbatim>\<open>type\<close>, then the fields as received.\<close>

definition event_of :: "endpoint \<Rightarrow> jsval \<Rightarrow> jsval" where
  "event_of ep body =
     Obj ((''type'', Str (event_kind ep)) # map (\<lambda>k. (k, field body k)) (required_fields ep))"

definition ok_response :: "endpoint \<Rightarrow> int \<Rightarrow> http_response" where
  "ok_response ep n =
     \<lparr>status = 200,
      json = Obj [(''success'', Bool True),
                  (''message'', Str (event_label ep @ '' event broadcasted'')),
                  (''clients'', Num (of_int n))]\<rparr>"

definition error_response :: "endpoint \<Rightarrow> http_response" where
  "error_response ep = \<lparr>status = 400, json = Obj [(''error'', Str (error_text ep))]\<rparr>"

section \<open>The connection registry and the fan-out channel\<close>

text \<open>
  The socket.io server object, its sockets, its rooms and its transport are a library
  that \<^verbatim>\<open>server.js\<close> calls; their code is not part of the program. They are modelled
  from the specification's Connection Registry and Fan-out Channel (its sections 3,
  4.1, 4.2 and 7).

  Modelled from the spec: the state of the registry and of the channel. \<open>sockets\<close> holds
  the identifiers of the Connections from their connect to their disconnect, \<open>rooms\<close> the
  members of each Broadcast Group, \<open>outbox\<close> the sends issued and not yet carried out,
  \<open>delivered\<close> the messages that reached their client, oldest first. A message is its
  recipient, the event name and the payload. \<open>connectedClients\<close> is the program's own
  counter, line 47 of \<^verbatim>\<open>server.js\<close>.
\<close>

type_synonym message = "string \<times> string \<times> jsval"

record server =
  connectedClients :: int
  sockets :: "string list"
  rooms :: "string \<Rightarrow> string list"
  outbox :: "message list"
  delivered :: "message list"

definition init :: server where
  "init = \<lparr>connectedClients = 0, sockets = [], rooms = (\<lambda>room. []), outbox = [], delivered = []\<rparr>"

text \<open>
  Modelled from the spec: registry and groups are sets, kept in the order of arrival;
  adding a member that is there already changes nothing.
\<close>

definition add_member :: "string \<Rightarrow> string list \<Rightarrow> string list" where
  "add_member h hs = (if h \<in> set hs then hs else hs @ [h])"

text \<open>Modelled from the spec: a connect allocates a Connection in the registry.\<close>

definition admit :: "string \<Rightarrow> server \<Rightarrow> server" where
  "admit h s = s\<lparr>sockets := add_member h (sockets s)\<rparr>"

text \<open>
  Modelled from the spec: a disconnect destroys the Connection and removes it from its
  group.
\<close>

definition release :: "string \<Rightarrow> server \<Rightarrow> server" where
  "release h s = s\<lparr>sockets := removeAll h (sockets s),
                   rooms := (\<lambda>room. removeAll h (rooms s room))\<rparr>"

text \<open>Modelled from the spec: \<^verbatim>\<open>socket.join(room)\<close> adds the Connection to the group.\<close>

definition socket_join :: "string \<Rightarrow> string \<Rightarrow> server \<Rightarrow> server" where
  "socket_join h room s = s\<lparr>rooms := (rooms s)(room := add_member h (rooms s room))\<rparr>"

text \<open>
  Modelled from the spec: \<^verbatim>\<open>socket.emit(ev, d)\<close> issues one send, to that Connection only.
\<close>

definition socket_emit :: "string \<Rightarrow> string \<Rightarrow> jsval \<Rightarrow> server \<Rightarrow> server" where
  "socket_emit h ev d s = s\<lparr>outbox := outbox s @ [(h, ev, d)]\<rparr>"

text \<open>
  Modelled from the spec: \<^verbatim>\<open>io.to(room).emit(ev, d)\<close> looks the group up and issues one
  send per member, a sequence of independent sends; nothing is collected from them.
\<close>

definition room_emit :: "string \<Rightarrow> string \<Rightarrow> jsval \<Rightarrow> server \<Rightarrow> server" where
  "room_emit room ev d s = s\<lparr>outbox := outbox s @ map (\<lambda>h. (h, ev, d)) (rooms s room)\<rparr>"

text \<open>
  Modelled from the spec: carrying out the oldest pending send. A send whose Connection
  has disconnected since the group lookup is dropped silently.
\<close>

definition deliver :: "server \<Rightarrow> server" where
  "deliver s =
     (case outbox s of
        [] \<Rightarrow> s
      | m # ms \<Rightarrow>
          if fst m \<in> set (sockets s)
          then s\<lparr>outbox := ms, delivered := delivered s @ [m]\<rparr>
          else s\<lparr>outbox := ms\<rparr>)"

text \<open>The calls of a handler, carried out in program order.\<close>

fun perform :: "call \<Rightarrow> server \<Rightarrow> server" where
  "perform ConsoleLog s = s"
| "perform (SocketJoin h room) s = socket_join h room s"
| "perform (SocketEmit h ev d) s = socket_emit h ev d s"
| "perform (RoomEmit room ev d) s = room_emit room ev d s"

definition perform_all :: "call list \<Rightarrow> server \<Rightarrow> server" where
  "perform_all calls s = fold perform calls s"

section \<open>The server as a transition system\<close>

text \<open>
  What reaches the process: a client connects under the identifier the library gave
  it, a connection closes, a client sends \<^verbatim>\<open>ping\<close>, a publisher posts to an ingestion
  endpoint, the transport carries out one pending send. The value of \<^verbatim>\<open>Date.now()\<close>
  comes with the ping.

  Modelled from the spec: the dispatch of these events to the handlers of
  \<^verbatim>\<open>server.js\<close>. A connect allocates the Connection and runs the connection handler
  once. The handlers for \<^verbatim>\<open>ping\<close> and \<^verbatim>\<open>disconnect\<close> are registered on a socket by the
  connection handler and run for a Connection that is in the registry; a disconnect
  for a handle that is not in the registry is no event, and a Connection is
  disconnected once (\<^verbatim>\<open>CONNECTING\<close>, \<^verbatim>\<open>CONNECTED\<close>, \<^verbatim>\<open>DISCONNECTED\<close>, the last terminal).

  A handler that throws has made no call by then (see the handlers), so the state at
  the throw is the state before the event; what the host does with the exception is
  not followed.
\<close>

datatype event =
    Connect string
  | Disconnect string string
  | Ping string jsval rat
  | Post endpoint jsval
  | Deliver

definition http_post :: "endpoint \<Rightarrow> jsval \<Rightarrow> server \<Rightarrow> (js_error + http_response) \<times> server" where
  "http_post ep body s =
     (case handler ep body (connectedClients s) of
        Inl e \<Rightarrow> (Inl e, s)
      | Inr (response, calls) \<Rightarrow> (Inr response, perform_all calls s))"

fun step :: "event \<Rightarrow> server \<Rightarrow> server" where
  "step (Connect h) s =
     (let s1 = admit h s;
          (n, calls) = on_connection h (connectedClients s1)
      in perform_all calls (s1\<lparr>connectedClients := n\<rparr>))"
| "step (Disconnect h reason) s =
     (if h \<in> set (sockets s)
      then let s1 = release h s;
               (n, calls) = on_disconnect h reason (connectedClients s1)
           in perform_all calls (s1\<lparr>connectedClients := n\<rparr>)
      else s)"
| "step (Ping h d now) s =
     (if h \<in> set (sockets s)
      then case on_ping h d now of Inl e \<Rightarrow> s | Inr calls \<Rightarrow> perform_all calls s
      else s)"
| "step (Post ep body) s = snd (http_post ep body s)"
| "step Deliver s = deliver s"

fun run :: "event list \<Rightarrow> server \<Rightarrow> server" where
  "run [] s = s"
| "run (e # es) s = run es (step e s)"

text \<open>
  Modelled from the spec: identifiers are unique. The library never hands a new
  connection the identifier of a connection that is still in the registry. A sequence
  of events is feasible from a state when every connect in it respects this.
\<close>

fun enabled :: "event \<Rightarrow> server \<Rightarrow> bool" where
  "enabled (Connect h) s = (h \<notin> set (sockets s))"
| "enabled e s = True"

fun feasible :: "event list \<Rightarrow> server \<Rightarrow> bool" where
  "feasible [] s = True"
| "feasible (e # es) s = (enabled e s \<and> feasible es (step e s))"

text \<open>
  Modelled from the spec: the identifier assigned to a new Connection. The
  specification asks of it only that it be unique; this one is longer than every
  identifier in the registry and so differs from each of them.
\<close>

definition fresh_id :: "string list \<Rightarrow> string" where
  "fresh_id hs = replicate (Suc (foldr (\<lambda>h n. max (length h) n) hs 0)) (CHR ''c'')"

text \<open>
  Modelled from the spec: \<^verbatim>\<open>onConnect() -> ConnectionHandle\<close>. The registry assigns the
  identifier and the connect event takes place under it; the handle is returned with
  the new state.
\<close>

definition connect :: "server \<Rightarrow> string \<times> server" where
  "connect s = (let h = fresh_id (sockets s) in (h, step (Connect h) s))"

text \<open>
  Read off the events alone: the handles admitted and not yet disconnected, starting
  from the handles \<open>L\<close>.
\<close>

fun live_after :: "event list \<Rightarrow> string set \<Rightarrow> string set" where
  "live_after [] L = L"
| "live_after (Connect h # es) L = live_after es (insert h L)"
| "live_after (Disconnect h reason # es) L = live_after es (L - {h})"
| "live_after (e # es) L = live_after es L"

text \<open>
  Read off the events alone: the number of connects, and the number of disconnects that
  close a handle admitted and not yet disconnected.
\<close>

fun connects :: "event list \<Rightarrow> nat" where
  "connects [] = 0"
| "connects (Connect h # es) = Suc (connects es)"
| "connects (e # es) = connects es"

fun closes :: "event list \<Rightarrow> string set \<Rightarrow> nat" where
  "closes [] L = 0"
| "closes (Connect h # es) L = closes es (insert h L)"
| "closes (Disconnect h reason # es) L = (if h \<in> L then 1 else 0) + closes es (L - {h})"
| "closes (e # es) L = closes es L"

fun lifecycle :: "event \<Rightarrow> bool" where
  "lifecycle (Connect h) = True"
| "lifecycle (Disconnect h reason) = True"
| "lifecycle e = False"

text \<open>The connection count, the registry and the group membership of a state.\<close>

definition registry :: "server \<Rightarrow> int \<times> string list \<times> (string \<Rightarrow> string list)" where
  "registry s = (connectedClients s, sockets s, rooms s)"

text \<open>
  The invariant of the reachable states: identifiers in the registry are pairwise
  distinct, the counter is their number, and the group \<^verbatim>\<open>order_updates\<close> holds exactly
  the registry while every other group is empty.
\<close>

definition inv :: "server \<Rightarrow> bool" where
  "inv s = (distinct (sockets s) \<and> connectedClients s = int (length (sockets s)) \<and>
            rooms s = (\<lambda>room. if room = ''order_updates'' then sockets s else []))"

section \<open>The handlers against the table\<close>

lemmas post_defs = post_order_created_def post_order_updated_def post_order_deleted_def
  post_order_status_changed_def post_order_image_uploaded_def post_order_image_deleted_def
  post_order_assigned_def post_comment_created_def post_comment_updated_def
  post_comment_deleted_def

lemmas registry_defs = admit_def release_def add_member_def socket_join_def socket_emit_def
  room_emit_def perform_all_def on_connection_def on_disconnect_def Let_def

lemmas eval_defs = registry_defs init_def on_ping_def get_prop_def nullish_def js_or_def
  http_post_def post_defs console_log_def deliver_def res_json_def res_status_json_def

lemma truthy_not_nullish: "truthy v \<Longrightarrow> \<not> nullish v"
  by (cases v) (simp_all add: nullish_def)

lemma field_nullish: "nullish b \<Longrightarrow> field b k = Undefined"
  by (auto simp: nullish_def)

lemma absent_field: "\<not> present body k \<Longrightarrow> field body k = Undefined"
  by (cases body) (auto split: option.splits)

text \<open>
  A handler has three outcomes: a TypeError, the 400 answer, and the broadcast with the
  200 answer. The TypeError is that of destructuring a body that is \<^verbatim>\<open>undefined\<close> or
  \<^verbatim>\<open>null\<close>, or that of a console line with a value that does not convert to a string.
  The property read of the console line never fails, since it follows the truthiness
  test.
\<close>

lemma handler_throws:
  assumes "nullish body"
  shows "handler ep body n = Inl TypeError"
  using assms by (cases ep) (simp_all add: post_defs)

lemma handler_rejects:
  assumes "\<not> nullish body" and "\<exists>k \<in> set (required_fields ep). \<not> truthy (field body k)"
  shows "handler ep body n = Inr (error_response ep, [])"
  using assms
  by (cases ep) (auto simp add: post_defs error_response_def res_status_json_def Let_def)

lemma truthy_fields_not_nullish:
  assumes "\<forall>k \<in> set (required_fields ep). truthy (field body k)"
  shows "\<not> nullish body"
  using assms by (cases ep) (auto simp: field_nullish)

lemma handler_fails:
  assumes "\<forall>k \<in> set (required_fields ep). truthy (field body k)"
    and "\<exists>v \<in> set (logged_values ep body). tostring_throws v"
  shows "handler ep body n = Inl TypeError"
  using assms truthy_fields_not_nullish [OF assms(1)]
  by (cases ep)
     (auto simp add: post_defs get_prop_def truthy_not_nullish console_log_def Let_def)

lemma handler_accepts:
  assumes "\<forall>k \<in> set (required_fields ep). truthy (field body k)"
    and "\<forall>v \<in> set (logged_values ep body). \<not> tostring_throws v"
  shows "handler ep body n =
           Inr (ok_response ep n,
                [ConsoleLog, RoomEmit ''order_updates'' (event_kind ep) (event_of ep body)])"
  using assms truthy_fields_not_nullish [OF assms(1)]
  by (cases ep)
     (simp_all add: post_defs get_prop_def truthy_not_nullish console_log_def ok_response_def
        event_of_def res_json_def Let_def)

lemma handler_cases:
  "handler ep body n = Inl TypeError \<or>
   handler ep body n = Inr (error_response ep, []) \<or>
   handler ep body n =
     Inr (ok_response ep n,
          [ConsoleLog, RoomEmit ''order_updates'' (event_kind ep) (event_of ep body)])"
proof (cases "nullish body")
  case True
  then show ?thesis by (simp add: handler_throws)
next
  case False
  show ?thesis
  proof (cases "\<forall>k \<in> set (required_fields ep). truthy (field body k)")
    case f: False
    then show ?thesis using handler_rejects [OF False, of ep n] by blast
  next
    case t: True
    show ?thesis
    proof (cases "\<forall>v \<in> set (logged_values ep body). \<not> tostring_throws v")
      case True
      then show ?thesis using handler_accepts [OF t, of n] by blast
    next
      case False
      then show ?thesis using handler_fails [OF t, of n] by blast
    qed
  qed
qed

text \<open>A handler that emits has passed the truthiness test and written its console line.\<close>

lemma handler_emits:
  assumes "handler ep body n = Inr (response, calls)" and "RoomEmit room ev d \<in> set calls"
  shows "(\<forall>k \<in> set (required_fields ep). truthy (field body k)) \<and>
         (\<forall>v \<in> set (logged_values ep body). \<not> tostring_throws v) \<and>
         room = ''order_updates'' \<and> ev = event_kind ep \<and> d = event_of ep body \<and>
         response = ok_response ep n \<and> calls = [ConsoleLog, RoomEmit room ev d]"
proof -
  have t: "\<forall>k \<in> set (required_fields ep). truthy (field body k)"
  proof (rule ccontr)
    assume "\<not> ?thesis"
    then have f: "\<exists>k \<in> set (required_fields ep). \<not> truthy (field body k)"
      by blast
    show False
    proof (cases "nullish body")
      case True
      then show False using assms(1) handler_throws by simp
    next
      case False
      then show False using assms handler_rejects [OF False f, of n] by simp
    qed
  qed
  have l: "\<forall>v \<in> set (logged_values ep body). \<not> tostring_throws v"
    using assms(1) handler_fails [OF t, of n] by auto
  have "response = ok_response ep n" and
    c: "calls = [ConsoleLog, RoomEmit ''order_updates'' (event_kind ep) (event_of ep body)]"
    using assms(1) handler_accepts [OF t l, of n] by simp_all
  moreover have "room = ''order_updates'' \<and> ev = event_kind ep \<and> d = event_of ep body"
    using assms(2) unfolding c by simp
  ultimately show ?thesis
    using t l by simp
qed

lemma post_accepted:
  assumes "\<forall>k \<in> set (required_fields ep). truthy (field body k)"
    and "\<forall>v \<in> set (logged_values ep body). \<not> tostring_throws v"
  shows "http_post ep body s =
           (Inr (ok_response ep (connectedClients s)),
            s\<lparr>outbox := outbox s @
                 map (\<lambda>h. (h, event_kind ep, event_of ep body)) (rooms s ''order_updates'')\<rparr>)"
  by (simp add: http_post_def handler_accepts [OF assms] perform_all_def room_emit_def)

lemma post_rejected:
  assumes "\<exists>k \<in> set (required_fields ep). \<not> truthy (field body k)"
  shows "step (Post ep body) s = s"
proof (cases "nullish body")
  case True
  then show ?thesis by (simp add: http_post_def handler_throws)
next
  case False
  then show ?thesis
    by (simp add: http_post_def handler_rejects [OF False assms] perform_all_def)
qed

section \<open>What each event leaves alone\<close>

lemma registry_room_emit: "registry (room_emit room ev d s) = registry s"
  by (simp add: registry_def room_emit_def)

lemma registry_socket_emit: "registry (socket_emit h ev d s) = registry s"
  by (simp add: registry_def socket_emit_def)

lemma registry_deliver: "registry (step Deliver s) = registry s"
  by (simp add: registry_def deliver_def split: list.splits)

lemma registry_post: "registry (step (Post ep body) s) = registry s"
  using handler_cases [of ep body "connectedClients s"]
  by (auto simp: http_post_def perform_all_def registry_room_emit)

lemma registry_ping: "registry (step (Ping h d now) s) = registry s"
  by (auto simp: on_ping_def perform_all_def registry_socket_emit split: sum.splits)

lemma registry_other: "\<not> lifecycle e \<Longrightarrow> registry (step e s) = registry s"
  by (cases e) (simp_all add: registry_ping registry_post registry_deliver del: step.simps)

lemma disconnect_frame:
  "outbox (step (Disconnect g reason) s) = outbox s \<and>
   delivered (step (Disconnect g reason) s) = delivered s \<and>
   sockets (step (Disconnect g reason) s) = removeAll g (sockets s)"
  by (simp add: registry_defs)

lemma disconnect_absent: "h \<notin> set (sockets s) \<Longrightarrow> step (Disconnect h reason) s = s"
  by simp

lemma disconnect_removes: "h \<notin> set (sockets (step (Disconnect h reason) s))"
  by (simp add: registry_defs)

text \<open>
  The disconnect handler by itself counts down on every run: the no-op of a second
  disconnect is owed to the registry, which runs it for registered handles only.
\<close>

lemma on_disconnect_counts_down:
  "fst (on_disconnect h r2 (fst (on_disconnect h r1 n))) = n - 2"
  by (simp add: on_disconnect_def)

section \<open>The invariant\<close>

lemma inv_registry: "registry s' = registry s \<Longrightarrow> inv s' = inv s"
  by (auto simp: registry_def inv_def)

lemma inv_init: "inv init"
  by (simp add: inv_def init_def fun_eq_iff)

lemma length_removeAll_distinct:
  "distinct xs \<Longrightarrow> h \<in> set xs \<Longrightarrow> int (length (removeAll h xs)) = int (length xs) - 1"
  by (induction xs) auto

lemma inv_connect: "inv s \<Longrightarrow> h \<notin> set (sockets s) \<Longrightarrow> inv (step (Connect h) s)"
  by (auto simp: inv_def registry_defs fun_eq_iff)

lemma inv_disconnect: "inv s \<Longrightarrow> inv (step (Disconnect h reason) s)"
  by (auto simp: inv_def registry_defs length_removeAll_distinct distinct_removeAll fun_eq_iff)

lemma inv_step:
  assumes "inv s" and "enabled e s"
  shows "inv (step e s)"
proof (cases "lifecycle e")
  case False
  then show ?thesis using assms(1) inv_registry [OF registry_other] by blast
next
  case True
  then show ?thesis using assms
    by (cases e) (simp_all add: inv_connect inv_disconnect del: step.simps)
qed

lemma inv_run: "inv s \<Longrightarrow> feasible es s \<Longrightarrow> inv (run es s)"
  by (induction es arbitrary: s) (auto simp: inv_step)

lemma inv_reachable: "feasible es init \<Longrightarrow> inv (run es init)"
  using inv_init inv_run by blast

section \<open>The registry follows the events\<close>

lemma sockets_step: "set (sockets (step e s)) = live_after [e] (set (sockets s))"
proof (cases "lifecycle e")
  case False
  then have "sockets (step e s) = sockets s"
    using registry_other [of e s] by (simp add: registry_def)
  with False show ?thesis by (cases e) simp_all
next
  case True
  then show ?thesis by (cases e) (auto simp: registry_defs)
qed

lemma live_after_Cons: "live_after (e # es) L = live_after es (live_after [e] L)"
  by (cases e) simp_all

lemma closes_Cons: "closes (e # es) L = closes [e] L + closes es (live_after [e] L)"
  by (cases e) simp_all

lemma connects_Cons: "connects (e # es) = connects [e] + connects es"
  by (cases e) simp_all

lemma sockets_run: "set (sockets (run es s)) = live_after es (set (sockets s))"
proof (induction es arbitrary: s)
  case Nil
  show ?case by simp
next
  case (Cons e es)
  have "set (sockets (run (e # es) s)) = live_after es (set (sockets (step e s)))"
    using Cons.IH by simp
  also have "\<dots> = live_after (e # es) (set (sockets s))"
    by (simp only: sockets_step live_after_Cons [of e es])
  finally show ?case .
qed

lemma count_step:
  assumes "inv s" and "enabled e s"
  shows "connectedClients (step e s) + int (closes [e] (set (sockets s))) =
         connectedClients s + int (connects [e])"
proof (cases "lifecycle e")
  case False
  then have "connectedClients (step e s) = connectedClients s"
    using registry_other [of e s] by (simp add: registry_def)
  with False show ?thesis by (cases e) simp_all
next
  case True
  then show ?thesis by (cases e) (simp_all add: registry_defs)
qed

lemma count_run:
  "inv s \<Longrightarrow> feasible es s \<Longrightarrow>
   connectedClients (run es s) + int (closes es (set (sockets s))) =
   connectedClients s + int (connects es)"
proof (induction es arbitrary: s)
  case Nil
  show ?case by simp
next
  case (Cons e es)
  have en: "enabled e s" and fe: "feasible es (step e s)"
    using Cons.prems by simp_all
  have i: "inv (step e s)"
    using Cons.prems(1) en by (rule inv_step)
  have "connectedClients (run es (step e s)) + int (closes es (set (sockets (step e s)))) =
        connectedClients (step e s) + int (connects es)"
    using Cons.IH [OF i fe] .
  moreover have "set (sockets (step e s)) = live_after [e] (set (sockets s))"
    by (rule sockets_step)
  moreover note count_step [OF Cons.prems(1) en]
  ultimately show ?case
    by (simp add: closes_Cons [of e es] connects_Cons [of e es])
qed

section \<open>Carrying out the pending sends\<close>

lemma drain:
  "n = length (outbox s) \<Longrightarrow>
   run (replicate n Deliver) s =
     s\<lparr>outbox := [],
       delivered := delivered s @ filter (\<lambda>m. fst m \<in> set (sockets s)) (outbox s)\<rparr>"
proof (induction n arbitrary: s)
  case 0
  then show ?case by simp
next
  case (Suc n)
  then obtain m ms where o: "outbox s = m # ms"
    by (cases "outbox s") auto
  have n: "n = length (outbox (deliver s))"
    using Suc.prems o by (simp add: deliver_def)
  show ?case using Suc.IH [OF n] o by (simp add: deliver_def)
qed

lemma filter_removeAll:
  "filter (\<lambda>h. h \<notin> set gone) (removeAll g xs) = filter (\<lambda>h. h \<notin> set (g # gone)) xs"
  by (induction xs) auto

lemma filter_members: "filter (\<lambda>x. P x \<and> x \<in> set xs) xs = filter P xs"
  by (rule filter_cong) auto

lemma closing:
  "outbox (run (map (\<lambda>h. Disconnect h reason) gone) s) = outbox s \<and>
   delivered (run (map (\<lambda>h. Disconnect h reason) gone) s) = delivered s \<and>
   sockets (run (map (\<lambda>h. Disconnect h reason) gone) s) =
     filter (\<lambda>h. h \<notin> set gone) (sockets s)"
proof (induction gone arbitrary: s)
  case Nil
  show ?case by simp
next
  case (Cons g gone)
  show ?case
    using Cons.IH [of "step (Disconnect g reason) s"] disconnect_frame [of g reason s]
    by (simp add: filter_removeAll del: step.simps)
qed

lemma fan_out:
  assumes "inv s" and "\<forall>k \<in> set (required_fields ep). truthy (field body k)"
    and "\<forall>v \<in> set (logged_values ep body). \<not> tostring_throws v"
  shows "delivered (run (replicate (length (outbox (step (Post ep body) s))) Deliver)
                     (run (map (\<lambda>h. Disconnect h reason) gone) (step (Post ep body) s))) =
         delivered s @
         filter (\<lambda>m. fst m \<in> set (sockets s) \<and> fst m \<notin> set gone) (outbox s) @
         map (\<lambda>h. (h, event_kind ep, event_of ep body))
           (filter (\<lambda>h. h \<notin> set gone) (rooms s ''order_updates''))"
proof -
  let ?s1 = "step (Post ep body) s"
  let ?s2 = "run (map (\<lambda>h. Disconnect h reason) gone) ?s1"
  let ?batch = "map (\<lambda>h. (h, event_kind ep, event_of ep body)) (rooms s ''order_updates'')"
  have s1: "?s1 = s\<lparr>outbox := outbox s @ ?batch\<rparr>"
    by (simp add: post_accepted [OF assms(2,3)])
  have members: "rooms s ''order_updates'' = sockets s"
    using assms(1) by (simp add: inv_def)
  have o2: "outbox ?s2 = outbox s @ ?batch" and d2: "delivered ?s2 = delivered s"
    and k2: "sockets ?s2 = filter (\<lambda>h. h \<notin> set gone) (sockets s)"
    using closing [of reason gone ?s1] by (simp_all only: s1) simp_all
  have len: "length (outbox ?s1) = length (outbox ?s2)"
    using o2 s1 by simp
  have "delivered (run (replicate (length (outbox ?s2)) Deliver) ?s2) =
          delivered ?s2 @ filter (\<lambda>m. fst m \<in> set (sockets ?s2)) (outbox ?s2)"
    by (subst drain [OF refl]) simp
  also have "\<dots> = delivered s @
         filter (\<lambda>m. fst m \<in> set (sockets s) \<and> fst m \<notin> set gone) (outbox s) @
         map (\<lambda>h. (h, event_kind ep, event_of ep body))
           (filter (\<lambda>h. h \<notin> set gone) (rooms s ''order_updates''))"
    unfolding o2 d2 k2 members
    by (simp add: filter_map comp_def conj_commute filter_members)
  finally show ?thesis unfolding len .
qed

section \<open>Assigning an identifier\<close>

lemma length_le_longest:
  "h \<in> set hs \<Longrightarrow> length h \<le> foldr (\<lambda>h n. max (length h) n) hs 0"
  by (induction hs) auto

lemma fresh_id_fresh: "fresh_id hs \<notin> set hs"
proof
  assume "fresh_id hs \<in> set hs"
  then have "length (fresh_id hs) \<le> foldr (\<lambda>h n. max (length h) n) hs 0"
    by (rule length_le_longest)
  then show False by (simp add: fresh_id_def)
qed

lemma run_append: "run (es @ fs) s = run fs (run es s)"
  by (induction es arbitrary: s) simp_all

lemma feasible_append: "feasible (es @ fs) s = (feasible es s \<and> feasible fs (run es s))"
  by (induction es arbitrary: s) auto

lemma connect_effect:
  assumes "inv s" and "h \<notin> set (sockets s)"
  shows "sockets (step (Connect h) s) = sockets s @ [h] \<and>
         distinct (sockets (step (Connect h) s)) \<and>
         (\<forall>room. (h \<in> set (rooms (step (Connect h) s) room)) = (room = ''order_updates'')) \<and>
         (\<forall>room h'. h' \<noteq> h \<longrightarrow>
            (h' \<in> set (rooms (step (Connect h) s) room)) = (h' \<in> set (rooms s room))) \<and>
         connectedClients (step (Connect h) s) = connectedClients s + 1 \<and>
         outbox (step (Connect h) s) =
           outbox s @
           [(h, ''connection_established'',
             Obj [(''message'', Str ''Connected to order updates''), (''clientId'', Str h)])] \<and>
         delivered (step (Connect h) s) = delivered s"
proof -
  have r: "rooms s = (\<lambda>room. if room = ''order_updates'' then sockets s else [])"
    and d: "distinct (sockets s)"
    using assms(1) by (simp_all add: inv_def)
  have "rooms (step (Connect h) s) = (rooms s)(''order_updates'' := sockets s @ [h])"
    using assms(2) r by (simp add: registry_defs)
  moreover have "sockets (step (Connect h) s) = sockets s @ [h]"
    using assms(2) by (simp add: registry_defs)
  moreover have "connectedClients (step (Connect h) s) = connectedClients s + 1 \<and>
         outbox (step (Connect h) s) =
           outbox s @
           [(h, ''connection_established'',
             Obj [(''message'', Str ''Connected to order updates''), (''clientId'', Str h)])] \<and>
         delivered (step (Connect h) s) = delivered s"
    by (simp add: registry_defs)
  ultimately show ?thesis
    using assms(2) d r by (simp del: step.simps)
qed

section \<open>The ingestion endpoints\<close>

text \<open>
  C1, as amended. For every ingestion endpoint and every request body in which all of
  that endpoint's required fields have truthy values (anything but an absent field,
  \<^verbatim>\<open>null\<close>, \<^verbatim>\<open>false\<close>, \<^verbatim>\<open>0\<close> and the empty string) and every value that the handler's
  console line prints converts to a string (it is no object with an entry \<^verbatim>\<open>toString\<close>
  of its own, and no array that holds such an object), the handler answers 200 with
  \<^verbatim>\<open>{success: true, message: "<event> event broadcasted", clients: <count>}\<close>, the count
  being the current value of \<^verbatim>\<open>connectedClients\<close>, after exactly one broadcast to the
  group \<^verbatim>\<open>order_updates\<close> whose event carries \<^verbatim>\<open>type\<close> and then exactly the endpoint's
  fields as received. The same body posted twice is broadcast twice: every member of
  the group is sent the event two times.
\<close>

theorem ingestion_accepts_truthy_fields:
  assumes "\<forall>k \<in> set (required_fields ep). truthy (field body k)"
    and "\<forall>v \<in> set (logged_values ep body). \<not> tostring_throws v"
  shows "handler ep body n =
           Inr (ok_response ep n,
                [ConsoleLog, RoomEmit ''order_updates'' (event_kind ep) (event_of ep body)]) \<and>
         fst (http_post ep body s) = Inr (ok_response ep (connectedClients s)) \<and>
         outbox (run [Post ep body, Post ep body] s) =
           outbox s @
           map (\<lambda>h. (h, event_kind ep, event_of ep body)) (rooms s ''order_updates'') @
           map (\<lambda>h. (h, event_kind ep, event_of ep body)) (rooms s ''order_updates'')"
  by (simp add: handler_accepts [OF assms] post_accepted [OF assms])

text \<open>A status change with all four fields, posted while two clients are counted.\<close>

theorem ingestion_accepts_truthy_fields_witness:
  "list_all
     (\<lambda>k. truthy (field (Obj [(''order_id'', Num 7), (''old_status'', Str ''created''),
                                (''new_status'', Str ''weighing''),
                                (''order'', Obj [(''order_number'', Str ''A1'')])]) k))
     (required_fields OrderStatusChanged) \<and>
   \<not> list_ex tostring_throws
     (logged_values OrderStatusChanged
        (Obj [(''order_id'', Num 7), (''old_status'', Str ''created''),
              (''new_status'', Str ''weighing''),
              (''order'', Obj [(''order_number'', Str ''A1'')])])) \<and>
   handler OrderStatusChanged
     (Obj [(''order_id'', Num 7), (''old_status'', Str ''created''),
           (''new_status'', Str ''weighing''),
           (''order'', Obj [(''order_number'', Str ''A1'')])]) 2 =
     Inr (\<lparr>status = 200,
           json = Obj [(''success'', Bool True),
                       (''message'', Str ''Order status changed event broadcasted''),
                       (''clients'', Num 2)]\<rparr>,
          [ConsoleLog,
           RoomEmit ''order_updates'' ''order_status_changed''
             (Obj [(''type'', Str ''order_status_changed''), (''order_id'', Num 7),
                   (''old_status'', Str ''created''), (''new_status'', Str ''weighing''),
                   (''order'', Obj [(''order_number'', Str ''A1'')])])])"
proof -
  let ?b = "Obj [(''order_id'', Num 7), (''old_status'', Str ''created''),
                 (''new_status'', Str ''weighing''),
                 (''order'', Obj [(''order_number'', Str ''A1'')])]"
  have h: "\<forall>k \<in> set (required_fields OrderStatusChanged). truthy (field ?b k)"
    by simp
  have l: "\<forall>v \<in> set (logged_values OrderStatusChanged ?b). \<not> tostring_throws v"
    by simp
  show ?thesis
    using h l ingestion_accepts_truthy_fields [OF h l, of 2 init]
    by (simp add: ok_response_def event_of_def)
qed

text \<open>
  As first stated the claim admits every value of a present field, \<^verbatim>\<open>0\<close> among them.
  The body \<^verbatim>\<open>{order_id: 0}\<close> has the one required field of
  \<^verbatim>\<open>/broadcast/order-deleted\<close>, and the guard \<^verbatim>\<open>if (!order_id)\<close> answers 400 without a
  broadcast. The body \<^verbatim>\<open>{order_id: {toString: 1}}\<close> has it with a truthy value, and the
  console line, which prints \<^verbatim>\<open>order_id\<close>, throws before the emit and the answer.
\<close>

theorem order_id_zero_rejected:
  "present (Obj [(''order_id'', Num 0)]) ''order_id'' \<and>
   handler OrderDeleted (Obj [(''order_id'', Num 0)]) 3 =
     Inr (\<lparr>status = 400, json = Obj [(''error'', Str ''Order ID is required'')]\<rparr>, []) \<and>
   present (Obj [(''order_id'', Obj [(''toString'', Num 1)])]) ''order_id'' \<and>
   truthy (field (Obj [(''order_id'', Obj [(''toString'', Num 1)])]) ''order_id'') \<and>
   handler OrderDeleted (Obj [(''order_id'', Obj [(''toString'', Num 1)])]) 3 = Inl TypeError"
  by (simp add: post_order_deleted_def nullish_def res_status_json_def console_log_def)

text \<open>
  C2, as amended. For every ingestion endpoint and every request body that is a value
  with fields (neither \<^verbatim>\<open>undefined\<close> nor \<^verbatim>\<open>null\<close>), the handler answers 400 with
  \<^verbatim>\<open>{error: <text>}\<close>, a non-empty text, exactly when some required field is falsy, and
  an absent field is falsy. Such a request performs no broadcast and leaves the whole
  state as it was: counter, registry, groups and pending sends. Validation is the
  truthiness of each required field and nothing else. Nothing is said of a request
  whose body is \<^verbatim>\<open>undefined\<close> or \<^verbatim>\<open>null\<close>.
\<close>

theorem ingestion_rejects_falsy_fields:
  assumes "\<not> nullish body"
  shows "(handler ep body n = Inr (error_response ep, [])) =
           (\<exists>k \<in> set (required_fields ep). \<not> truthy (field body k)) \<and>
         (\<forall>k. \<not> present body k \<longrightarrow> \<not> truthy (field body k)) \<and>
         ((\<exists>k \<in> set (required_fields ep). \<not> truthy (field body k)) \<longrightarrow>
            step (Post ep body) s = s) \<and>
         status (error_response ep) = 400 \<and>
         json (error_response ep) = Obj [(''error'', Str (error_text ep))] \<and>
         error_text ep \<noteq> []"
proof -
  have "handler ep body n \<noteq> Inr (error_response ep, [])"
    if t: "\<forall>k \<in> set (required_fields ep). truthy (field body k)"
  proof (cases "\<forall>v \<in> set (logged_values ep body). \<not> tostring_throws v")
    case True
    then show ?thesis using handler_accepts [OF t, of n] by simp
  next
    case False
    then show ?thesis using handler_fails [OF t, of n] by simp
  qed
  then have "(handler ep body n = Inr (error_response ep, [])) =
           (\<exists>k \<in> set (required_fields ep). \<not> truthy (field body k))"
    using handler_rejects [OF assms, of ep n] by blast
  moreover have "error_text ep \<noteq> []"
    by (cases ep) simp_all
  ultimately show ?thesis
    by (simp add: absent_field post_rejected error_response_def del: step.simps)
qed

text \<open>A comment deletion that lacks \<^verbatim>\<open>comment_id\<close>, posted while one client is connected.\<close>

theorem ingestion_rejects_falsy_fields_witness:
  "\<not> nullish (Obj [(''order_id'', Str ''17'')]) \<and>
   \<not> present (Obj [(''order_id'', Str ''17'')]) ''comment_id'' \<and>
   ''comment_id'' \<in> set (required_fields CommentDeleted) \<and>
   handler CommentDeleted (Obj [(''order_id'', Str ''17'')]) 4 =
     Inr (\<lparr>status = 400, json = Obj [(''error'', Str ''Missing required fields'')]\<rparr>, []) \<and>
   step (Post CommentDeleted (Obj [(''order_id'', Str ''17'')])) (step (Connect ''c1'') init) =
     step (Connect ''c1'') init"
proof -
  let ?b = "Obj [(''order_id'', Str ''17'')]"
  have h: "\<not> nullish ?b"
    by (simp add: nullish_def)
  have a: "\<not> present ?b ''comment_id''"
    by simp
  show ?thesis
    using h a ingestion_rejects_falsy_fields [OF h, of CommentDeleted 4 "step (Connect ''c1'') init"]
    by (simp add: error_response_def del: step.simps)
qed

text \<open>
  As first stated the claim has validation look at presence only. The body
  \<^verbatim>\<open>{order: false}\<close> has the field \<^verbatim>\<open>order\<close>, and \<^verbatim>\<open>/broadcast/order-created\<close> rejects it
  for its value. And a request whose body is \<^verbatim>\<open>undefined\<close> lacks every field, yet gets no
  400 answer: the destructuring of the handler throws.
\<close>

theorem false_order_rejected:
  "present (Obj [(''order'', Bool False)]) ''order'' \<and>
   handler OrderCreated (Obj [(''order'', Bool False)]) 0 =
     Inr (\<lparr>status = 400, json = Obj [(''error'', Str ''Order data is required'')]\<rparr>, []) \<and>
   \<not> present Undefined ''order'' \<and>
   handler OrderCreated Undefined 0 = Inl TypeError"
  by (simp add: post_order_created_def nullish_def res_status_json_def)

section \<open>The connection count\<close>

text \<open>
  C3. For every sequence of connect and disconnect operations (pings, posts and sends
  may come in between), the Connection Count equals the number of Connections admitted
  and not yet disconnected, and is never negative. The count is the program's
  \<^verbatim>\<open>connectedClients\<close>; the Connections admitted and not yet disconnected are read off
  the events by \<open>live_after\<close>.
\<close>

theorem connection_count_is_live_count:
  assumes "feasible es init"
  shows "connectedClients (run es init) = int (card (live_after es {})) \<and>
         0 \<le> connectedClients (run es init)"
proof -
  have i: "inv (run es init)"
    using assms by (rule inv_reachable)
  then have "card (set (sockets (run es init))) = length (sockets (run es init))"
    by (simp add: inv_def distinct_card)
  moreover have "set (sockets (run es init)) = live_after es {}"
    using sockets_run [of es init] by (simp add: init_def)
  ultimately show ?thesis
    using i by (simp add: inv_def)
qed

text \<open>Three connects, a ping, and the first client closing, reported twice.\<close>

theorem connection_count_is_live_count_witness:
  "feasible [Connect ''a'', Connect ''b'', Ping ''a'' (Obj []) 5, Disconnect ''a'' ''transport close'',
             Disconnect ''a'' ''transport close'', Connect ''c''] init \<and>
   live_after [Connect ''a'', Connect ''b'', Ping ''a'' (Obj []) 5, Disconnect ''a'' ''transport close'',
             Disconnect ''a'' ''transport close'', Connect ''c''] {} = {''b'', ''c''} \<and>
   connectedClients (run [Connect ''a'', Connect ''b'', Ping ''a'' (Obj []) 5, Disconnect ''a'' ''transport close'',
             Disconnect ''a'' ''transport close'', Connect ''c''] init) = 2"
proof -
  let ?es = "[Connect ''a'', Connect ''b'', Ping ''a'' (Obj []) 5, Disconnect ''a'' ''transport close'',
             Disconnect ''a'' ''transport close'', Connect ''c'']"
  have f: "feasible ?es init"
    by (simp add: eval_defs)
  have l: "live_after ?es {} = {''b'', ''c''}"
    by auto
  show ?thesis
    using f l connection_count_is_live_count [OF f] by simp
qed

text \<open>
  C4. A disconnect for a handle that has been removed from the registry is a no-op: the
  whole state, Connection Count and group membership included, is as before, and
  nothing fails. So a second disconnect of a handle changes nothing after the first.
\<close>

theorem disconnect_of_removed_handle_is_noop:
  "(h \<notin> set (sockets s) \<longrightarrow> step (Disconnect h reason) s = s) \<and>
   step (Disconnect h r2) (step (Disconnect h r1) s) = step (Disconnect h r1) s"
  using disconnect_removes [of h r1 s] disconnect_absent by blast

text \<open>The first of two clients closes, and its close is reported again.\<close>

theorem disconnect_of_removed_handle_is_noop_witness:
  "''a'' \<notin> set (sockets (run [Connect ''a'', Connect ''b'', Disconnect ''a'' ''client namespace disconnect''] init)) \<and>
   step (Disconnect ''a'' ''transport close'')
     (run [Connect ''a'', Connect ''b'', Disconnect ''a'' ''client namespace disconnect''] init) =
   run [Connect ''a'', Connect ''b'', Disconnect ''a'' ''client namespace disconnect''] init"
proof -
  let ?s = "run [Connect ''a'', Connect ''b'', Disconnect ''a'' ''client namespace disconnect''] init"
  have h: "''a'' \<notin> set (sockets ?s)"
    by (simp add: eval_defs)
  show ?thesis
    using h disconnect_of_removed_handle_is_noop [of "''a''" ?s "''transport close''"]
    by (simp del: step.simps run.simps)
qed

section \<open>The heartbeat\<close>

text \<open>
  C5, as amended. For every ping that carries a payload (a value that is neither
  \<^verbatim>\<open>undefined\<close> nor \<^verbatim>\<open>null\<close>) with a truthy timestamp \<open>t\<close> (any number but \<^verbatim>\<open>0\<close>), the
  handler sends \<^verbatim>\<open>pong {timestamp: t}\<close> with \<^verbatim>\<open>socket.emit\<close> on the originating socket and
  makes no other send; when the payload omits the timestamp (as in \<^verbatim>\<open>ping {}\<close>) or has
  a falsy one, the timestamp of the pong is the server's current time. For a
  registered Connection exactly one send is issued, and it is addressed to that
  Connection. Nothing is said of a ping without a payload.
\<close>

theorem pong_echoes_truthy_timestamp:
  assumes "\<not> nullish d"
  shows "on_ping h d now =
           Inr [SocketEmit h ''pong''
                  (Obj [(''timestamp'',
                         if truthy (field d ''timestamp'') then field d ''timestamp''
                         else Num now)]),
                ConsoleLog] \<and>
         (h \<in> set (sockets s) \<longrightarrow>
            outbox (step (Ping h d now) s) =
              outbox s @
              [(h, ''pong'',
                Obj [(''timestamp'',
                      if truthy (field d ''timestamp'') then field d ''timestamp''
                      else Num now)])])"
  using assms by (simp add: on_ping_def get_prop_def js_or_def perform_all_def socket_emit_def)

text \<open>\<^verbatim>\<open>ping {timestamp: 1234}\<close> and \<^verbatim>\<open>ping {}\<close>.\<close>

theorem pong_echoes_truthy_timestamp_witness:
  "\<not> nullish (Obj [(''timestamp'', Num 1234)]) \<and>
   on_ping ''a'' (Obj [(''timestamp'', Num 1234)]) 1700000000000 =
     Inr [SocketEmit ''a'' ''pong'' (Obj [(''timestamp'', Num 1234)]), ConsoleLog] \<and>
   \<not> nullish (Obj []) \<and>
   on_ping ''a'' (Obj []) 1700000000000 =
     Inr [SocketEmit ''a'' ''pong'' (Obj [(''timestamp'', Num 1700000000000)]), ConsoleLog]"
proof -
  have h1: "\<not> nullish (Obj [(''timestamp'', Num 1234)])" and h2: "\<not> nullish (Obj [])"
    by (simp_all add: nullish_def)
  show ?thesis
    using h1 h2 pong_echoes_truthy_timestamp [OF h1, of "''a''" 1700000000000 init]
      pong_echoes_truthy_timestamp [OF h2, of "''a''" 1700000000000 init]
    by simp
qed

text \<open>
  As first stated the claim echoes every client-supplied timestamp and answers every
  ping that omits it. The ping \<^verbatim>\<open>{timestamp: 0}\<close> supplies one, and
  \<^verbatim>\<open>data.timestamp || Date.now()\<close> answers with the server's time. A ping without a
  payload omits the timestamp, and the read of \<^verbatim>\<open>data.timestamp\<close> throws: no pong.
\<close>

theorem zero_timestamp_not_echoed:
  "field (Obj [(''timestamp'', Num 0)]) ''timestamp'' = Num 0 \<and>
   on_ping ''a'' (Obj [(''timestamp'', Num 0)]) 1700000000000 =
     Inr [SocketEmit ''a'' ''pong'' (Obj [(''timestamp'', Num 1700000000000)]), ConsoleLog] \<and>
   \<not> present Undefined ''timestamp'' \<and>
   on_ping ''a'' Undefined 1700000000000 = Inl TypeError"
  by (simp add: on_ping_def get_prop_def nullish_def js_or_def)

text \<open>
  C9. The ping handler returns normally exactly for the payloads that are neither
  \<^verbatim>\<open>undefined\<close> nor \<^verbatim>\<open>null\<close>. For a ping without a payload the read of
  \<^verbatim>\<open>data.timestamp\<close> fails with a TypeError, and no pong is sent: no call is made and the
  state is as before.
\<close>

theorem ping_without_payload_fails:
  "on_ping h Undefined now = Inl TypeError \<and>
   (\<exists>calls. on_ping h d now = Inr calls) = (\<not> nullish d) \<and>
   step (Ping h Undefined now) s = s"
  by (auto simp: on_ping_def get_prop_def nullish_def)

text \<open>A connected client pings without a payload: its greeting stays the only send.\<close>

theorem ping_without_payload_fails_witness:
  "on_ping ''a'' Undefined 1700000000000 = Inl TypeError \<and>
   outbox (step (Ping ''a'' Undefined 1700000000000) (step (Connect ''a'') init)) =
     [(''a'', ''connection_established'',
       Obj [(''message'', Str ''Connected to order updates''), (''clientId'', Str ''a'')])]"
proof -
  have "outbox (step (Connect ''a'') init) =
     [(''a'', ''connection_established'',
       Obj [(''message'', Str ''Connected to order updates''), (''clientId'', Str ''a'')])]"
    by (simp add: eval_defs)
  then show ?thesis
    using ping_without_payload_fails [of "''a''" 1700000000000 Undefined "step (Connect ''a'') init"]
    by (simp del: step.simps)
qed

section \<open>Connecting\<close>

text \<open>
  C6. On every client connect, in every reachable state, the new Connection is assigned
  an identifier that no Connection in the registry has, and enters the registry, whose
  identifiers stay pairwise distinct; it is a member of the group \<^verbatim>\<open>order_updates\<close> and
  of no other group, with no join step of the client, and the membership of the other
  Connections is as before; the Connection Count goes up by one; and exactly one send
  is issued, \<^verbatim>\<open>connection_established\<close> with the assigned identifier, addressed to the
  new Connection only. The connect is a feasible event, so the state after it is
  reachable again.
\<close>

theorem connect_admits_joins_and_greets:
  assumes "feasible es init" and "s = run es init" and "connect s = (h, s')"
  shows "h \<notin> set (sockets s) \<and>
         sockets s' = sockets s @ [h] \<and>
         distinct (sockets s') \<and>
         (\<forall>room. (h \<in> set (rooms s' room)) = (room = ''order_updates'')) \<and>
         (\<forall>room h'. h' \<noteq> h \<longrightarrow> (h' \<in> set (rooms s' room)) = (h' \<in> set (rooms s room))) \<and>
         connectedClients s' = connectedClients s + 1 \<and>
         outbox s' =
           outbox s @
           [(h, ''connection_established'',
             Obj [(''message'', Str ''Connected to order updates''), (''clientId'', Str h)])] \<and>
         delivered s' = delivered s \<and>
         feasible (es @ [Connect h]) init \<and>
         s' = run (es @ [Connect h]) init"
proof -
  have h: "h = fresh_id (sockets s)" and s': "s' = step (Connect h) s"
    using assms(3) by (auto simp add: connect_def Let_def simp del: step.simps)
  have f: "h \<notin> set (sockets s)"
    unfolding h by (rule fresh_id_fresh)
  have i: "inv s"
    using assms(1,2) by (simp add: inv_reachable)
  have "feasible (es @ [Connect h]) init" and "s' = run (es @ [Connect h]) init"
    using assms(1,2) f s' by (simp_all add: feasible_append run_append del: step.simps)
  then show ?thesis
    using f connect_effect [OF i f] unfolding s' by blast
qed

text \<open>A second client connects and is assigned an identifier other than the first's.\<close>

theorem connect_admits_joins_and_greets_witness:
  "feasible [Connect ''a''] init \<and>
   connect (run [Connect ''a''] init) = (''cc'', step (Connect ''cc'') (run [Connect ''a''] init)) \<and>
   ''cc'' \<notin> set (sockets (run [Connect ''a''] init)) \<and>
   sockets (step (Connect ''cc'') (run [Connect ''a''] init)) = [''a'', ''cc''] \<and>
   connectedClients (step (Connect ''cc'') (run [Connect ''a''] init)) = 2 \<and>
   outbox (step (Connect ''cc'') (run [Connect ''a''] init)) =
     [(''a'', ''connection_established'',
       Obj [(''message'', Str ''Connected to order updates''), (''clientId'', Str ''a'')]),
      (''cc'', ''connection_established'',
       Obj [(''message'', Str ''Connected to order updates''), (''clientId'', Str ''cc'')])]"
proof -
  let ?s = "run [Connect ''a''] init"
  have f: "feasible [Connect ''a''] init"
    by (simp add: eval_defs)
  have v: "sockets ?s = [''a'']" "connectedClients ?s = 1"
    "outbox ?s = [(''a'', ''connection_established'',
       Obj [(''message'', Str ''Connected to order updates''), (''clientId'', Str ''a'')])]"
    by (simp_all add: eval_defs)
  have c: "connect ?s = (''cc'', step (Connect ''cc'') ?s)"
    unfolding connect_def v(1) by (simp add: fresh_id_def Let_def del: step.simps run.simps)
  note r = connect_admits_joins_and_greets [OF f refl c]
  note r2 = r [THEN conjunct2]
  note r6 = r2 [THEN conjunct2, THEN conjunct2, THEN conjunct2, THEN conjunct2]
  show ?thesis
    using f c r [THEN conjunct1] r2 [THEN conjunct1] r6 [THEN conjunct1]
      r6 [THEN conjunct2, THEN conjunct1]
    by (simp add: v del: step.simps run.simps)
qed

section \<open>The fan-out\<close>

text \<open>
  C7. In every reachable state, every broadcast that an ingestion handler makes is the
  one emit of its request and goes to the group \<^verbatim>\<open>order_updates\<close>; it issues one send of
  its event per member of the group at the time of the call, and none to anyone else;
  the members are exactly the Connections admitted and not yet disconnected. When the
  handles \<open>gone\<close> disconnect after the dispatch and the pending sends are then carried
  out, the event reaches every member that is not in \<open>gone\<close> and no one else, the sends
  to the members in \<open>gone\<close> are skipped, and the caller has its 200 answer all the same.
\<close>

theorem broadcast_reaches_group_members:
  assumes "feasible es init" and "s = run es init"
    and "handler ep body (connectedClients s) = Inr (response, calls)"
    and "RoomEmit room ev d \<in> set calls"
  shows "room = ''order_updates'' \<and>
         calls = [ConsoleLog, RoomEmit room ev d] \<and>
         outbox (step (Post ep body) s) = outbox s @ map (\<lambda>h. (h, ev, d)) (rooms s room) \<and>
         set (rooms s room) = live_after es {} \<and>
         distinct (rooms s room) \<and>
         fst (http_post ep body s) = Inr (ok_response ep (connectedClients s)) \<and>
         delivered (run (replicate (length (outbox (step (Post ep body) s))) Deliver)
                     (run (map (\<lambda>h. Disconnect h reason) gone) (step (Post ep body) s))) =
           delivered s @
           filter (\<lambda>m. fst m \<in> set (sockets s) \<and> fst m \<notin> set gone) (outbox s) @
           map (\<lambda>h. (h, ev, d)) (filter (\<lambda>h. h \<notin> set gone) (rooms s room))"
proof -
  note e = handler_emits [OF assms(3,4)]
  have t: "\<forall>k \<in> set (required_fields ep). truthy (field body k)"
    and l: "\<forall>v \<in> set (logged_values ep body). \<not> tostring_throws v"
    and r: "room = ''order_updates''" "ev = event_kind ep" "d = event_of ep body"
    and c: "calls = [ConsoleLog, RoomEmit room ev d]"
    using e by simp_all
  have i: "inv s"
    using assms(1,2) by (simp add: inv_reachable)
  have "set (sockets s) = live_after es {}"
    using sockets_run [of es init] assms(2) by (simp add: init_def)
  moreover have "rooms s ''order_updates'' = sockets s" and "distinct (sockets s)"
    using i by (simp_all add: inv_def)
  moreover have "outbox (step (Post ep body) s) =
           outbox s @
           map (\<lambda>h. (h, event_kind ep, event_of ep body)) (rooms s ''order_updates'')"
    by (simp add: post_accepted [OF t l])
  moreover note fan_out [OF i t l, of reason gone]
  ultimately show ?thesis
    using c unfolding r by (simp add: post_accepted [OF t l] del: step.simps)
qed

text \<open>
  Three clients have received their greetings; an order deletion is posted and the
  second client closes before the sends are carried out.
\<close>

theorem broadcast_reaches_group_members_witness:
  "feasible [Connect ''a'', Connect ''b'', Connect ''c'', Deliver, Deliver, Deliver] init \<and>
   handler OrderDeleted (Obj [(''order_id'', Num 9)])
     (connectedClients (run [Connect ''a'', Connect ''b'', Connect ''c'', Deliver, Deliver, Deliver] init)) =
     Inr (\<lparr>status = 200,
           json = Obj [(''success'', Bool True),
                       (''message'', Str ''Order deleted event broadcasted''),
                       (''clients'', Num 3)]\<rparr>,
          [ConsoleLog,
           RoomEmit ''order_updates'' ''order_deleted''
             (Obj [(''type'', Str ''order_deleted''), (''order_id'', Num 9)])]) \<and>
   rooms (run [Connect ''a'', Connect ''b'', Connect ''c'', Deliver, Deliver, Deliver] init)
     ''order_updates'' = [''a'', ''b'', ''c''] \<and>
   delivered (run [Connect ''a'', Connect ''b'', Connect ''c'', Deliver, Deliver, Deliver] init) =
     [(''a'', ''connection_established'',
       Obj [(''message'', Str ''Connected to order updates''), (''clientId'', Str ''a'')]),
      (''b'', ''connection_established'',
       Obj [(''message'', Str ''Connected to order updates''), (''clientId'', Str ''b'')]),
      (''c'', ''connection_established'',
       Obj [(''message'', Str ''Connected to order updates''), (''clientId'', Str ''c'')])] \<and>
   delivered
     (run (replicate
            (length (outbox (step (Post OrderDeleted (Obj [(''order_id'', Num 9)]))
               (run [Connect ''a'', Connect ''b'', Connect ''c'', Deliver, Deliver, Deliver] init))))
            Deliver)
        (run (map (\<lambda>h. Disconnect h ''transport close'') [''b''])
           (step (Post OrderDeleted (Obj [(''order_id'', Num 9)]))
              (run [Connect ''a'', Connect ''b'', Connect ''c'', Deliver, Deliver, Deliver] init)))) =
     [(''a'', ''connection_established'',
       Obj [(''message'', Str ''Connected to order updates''), (''clientId'', Str ''a'')]),
      (''b'', ''connection_established'',
       Obj [(''message'', Str ''Connected to order updates''), (''clientId'', Str ''b'')]),
      (''c'', ''connection_established'',
       Obj [(''message'', Str ''Connected to order updates''), (''clientId'', Str ''c'')]),
      (''a'', ''order_deleted'', Obj [(''type'', Str ''order_deleted''), (''order_id'', Num 9)]),
      (''c'', ''order_deleted'', Obj [(''type'', Str ''order_deleted''), (''order_id'', Num 9)])]"
proof -
  let ?es = "[Connect ''a'', Connect ''b'', Connect ''c'', Deliver, Deliver, Deliver]"
  let ?b = "Obj [(''order_id'', Num 9)]"
  let ?ev = "Obj [(''type'', Str ''order_deleted''), (''order_id'', Num 9)]"
  let ?response = "\<lparr>status = 200,
           json = Obj [(''success'', Bool True),
                       (''message'', Str ''Order deleted event broadcasted''),
                       (''clients'', Num 3)]\<rparr>"
  let ?calls = "[ConsoleLog, RoomEmit ''order_updates'' ''order_deleted'' ?ev]"
  have f: "feasible ?es init"
    by (simp add: eval_defs)
  have v: "rooms (run ?es init) ''order_updates'' = [''a'', ''b'', ''c'']"
    "sockets (run ?es init) = [''a'', ''b'', ''c'']"
    "outbox (run ?es init) = []"
    "delivered (run ?es init) =
     [(''a'', ''connection_established'',
       Obj [(''message'', Str ''Connected to order updates''), (''clientId'', Str ''a'')]),
      (''b'', ''connection_established'',
       Obj [(''message'', Str ''Connected to order updates''), (''clientId'', Str ''b'')]),
      (''c'', ''connection_established'',
       Obj [(''message'', Str ''Connected to order updates''), (''clientId'', Str ''c'')])]"
    "connectedClients (run ?es init) = 3"
    by (simp_all add: eval_defs)
  have hd: "handler OrderDeleted ?b (connectedClients (run ?es init)) = Inr (?response, ?calls)"
    unfolding v(5) by (simp add: eval_defs)
  have m: "RoomEmit ''order_updates'' ''order_deleted'' ?ev \<in> set ?calls"
    by simp
  note r = broadcast_reaches_group_members
             [OF f refl hd m, of "''transport close''" "[''b'']"]
  note d = r [THEN conjunct2, THEN conjunct2, THEN conjunct2, THEN conjunct2, THEN conjunct2,
              THEN conjunct2]
  have e: "delivered (run ?es init) @
           filter (\<lambda>m. fst m \<in> set (sockets (run ?es init)) \<and> fst m \<notin> set [''b''])
             (outbox (run ?es init)) @
           map (\<lambda>h. (h, ''order_deleted'', ?ev))
             (filter (\<lambda>h. h \<notin> set [''b'']) (rooms (run ?es init) ''order_updates'')) =
     [(''a'', ''connection_established'',
       Obj [(''message'', Str ''Connected to order updates''), (''clientId'', Str ''a'')]),
      (''b'', ''connection_established'',
       Obj [(''message'', Str ''Connected to order updates''), (''clientId'', Str ''b'')]),
      (''c'', ''connection_established'',
       Obj [(''message'', Str ''Connected to order updates''), (''clientId'', Str ''c'')]),
      (''a'', ''order_deleted'', ?ev),
      (''c'', ''order_deleted'', ?ev)]"
    by (simp only: v) simp
  show ?thesis
    by (intro conjI f hd v(1) v(4) trans [OF d e])
qed

section \<open>The status endpoint\<close>

text \<open>
  C8. \<^verbatim>\<open>GET /health\<close> always answers 200 with
  \<^verbatim>\<open>{status: "ok", connectedClients: <count>, uptime: <process seconds>}\<close>, the count
  being the current \<^verbatim>\<open>connectedClients\<close>; after exactly 3 connects and 1 disconnect of
  a connected client it reports \<^verbatim>\<open>connectedClients: 2\<close>.
\<close>

theorem health_reports_connection_count:
  "get_health n uptime =
     \<lparr>status = 200,
      json = Obj [(''status'', Str ''ok''), (''connectedClients'', Num (of_int n)),
                  (''uptime'', Num uptime)]\<rparr> \<and>
   (feasible es init \<longrightarrow> connects es = 3 \<longrightarrow> closes es {} = 1 \<longrightarrow>
      get_health (connectedClients (run es init)) uptime =
        \<lparr>status = 200,
         json = Obj [(''status'', Str ''ok''), (''connectedClients'', Num 2),
                     (''uptime'', Num uptime)]\<rparr>)"
proof -
  have "connectedClients (run es init) = 2"
    if "feasible es init" and "connects es = 3" and "closes es {} = 1"
    using count_run [OF inv_init that(1)] that(2,3) by (simp add: init_def)
  then show ?thesis
    by (simp add: get_health_def res_json_def)
qed

text \<open>Two clients connect, the first closes, a third connects.\<close>

theorem health_reports_connection_count_witness:
  "feasible [Connect ''a'', Connect ''b'', Disconnect ''a'' ''transport close'', Connect ''c''] init \<and>
   connects [Connect ''a'', Connect ''b'', Disconnect ''a'' ''transport close'', Connect ''c''] = 3 \<and>
   closes [Connect ''a'', Connect ''b'', Disconnect ''a'' ''transport close'', Connect ''c''] {} = 1 \<and>
   get_health
     (connectedClients
        (run [Connect ''a'', Connect ''b'', Disconnect ''a'' ''transport close'', Connect ''c''] init))
     (17 / 2) =
     \<lparr>status = 200,
      json = Obj [(''status'', Str ''ok''), (''connectedClients'', Num 2),
                  (''uptime'', Num (17 / 2))]\<rparr>"
proof -
  let ?es = "[Connect ''a'', Connect ''b'', Disconnect ''a'' ''transport close'', Connect ''c'']"
  have f: "feasible ?es init"
    by (simp add: eval_defs)
  have c: "connects ?es = 3" and d: "closes ?es {} = 1"
    by simp_all
  note r = health_reports_connection_count
             [of 0 "17 / 2" ?es, THEN conjunct2, rule_format, OF f c d]
  show ?thesis
    by (intro conjI f c d r)
qed

section \<open>The frame of an ingestion request\<close>

text \<open>
  C10. Every ingestion request, whatever its answer, leaves the Connection Count, the
  registry and the membership of every group exactly as they were; so does every event
  that is not a connect or a disconnect.
\<close>

theorem ingestion_leaves_registry_unchanged:
  "connectedClients (step (Post ep body) s) = connectedClients s \<and>
   sockets (step (Post ep body) s) = sockets s \<and>
   rooms (step (Post ep body) s) = rooms s \<and>
   (\<not> lifecycle e \<longrightarrow> registry (step e s) = registry s)"
  using registry_post [of ep body s] registry_other [of e s]
  by (simp add: registry_def del: step.simps)

text \<open>An order creation posted while two clients are connected.\<close>

theorem ingestion_leaves_registry_unchanged_witness:
  "\<not> lifecycle (Post OrderCreated (Obj [(''order'', Obj [(''order_number'', Str ''A1'')])])) \<and>
   connectedClients
     (step (Post OrderCreated (Obj [(''order'', Obj [(''order_number'', Str ''A1'')])]))
        (run [Connect ''a'', Connect ''b''] init)) = 2 \<and>
   sockets
     (step (Post OrderCreated (Obj [(''order'', Obj [(''order_number'', Str ''A1'')])]))
        (run [Connect ''a'', Connect ''b''] init)) = [''a'', ''b''] \<and>
   rooms
     (step (Post OrderCreated (Obj [(''order'', Obj [(''order_number'', Str ''A1'')])]))
        (run [Connect ''a'', Connect ''b''] init)) ''order_updates'' = [''a'', ''b'']"
proof -
  let ?s = "run [Connect ''a'', Connect ''b''] init"
  have v: "connectedClients ?s = 2" "sockets ?s = [''a'', ''b'']"
    "rooms ?s ''order_updates'' = [''a'', ''b'']"
    by (simp_all add: eval_defs)
  show ?thesis
    using ingestion_leaves_registry_unchanged
            [of OrderCreated "Obj [(''order'', Obj [(''order_number'', Str ''A1'')])]" ?s
                "Post OrderCreated (Obj [(''order'', Obj [(''order_number'', Str ''A1'')])])"]
    by (simp add: v del: step.simps run.simps)
qed

end
